theory Spec2Isabelle
  imports Complex_Main "HOL-Library.Word"
begin

section \<open>The \<open>nix path-info\<close> command (\<open>src/nix/path-info.cc\<close>)\<close>

text \<open>
  The command prints, for a list of store paths, one text line per path or a single JSON
  document. The model keeps the structure of \<open>CmdPathInfo\<close>: the flags are a record,
  the store is a record of the methods \<open>run\<close> calls, every method that can throw
  returns a sum with the error on the left, and standard output is the string the
  invocation has written when it returns or throws.
\<close>

subsection \<open>Errors, flags and store data\<close>

text \<open>
  The exceptions that can leave \<open>run\<close>: those of the store methods, the type error of
  the JSON library when a record has no string under \<open>"path"\<close>, and
  \<open>std::out_of_range\<close> of \<open>std::array::at\<close>.
\<close>

datatype error = InvalidPath | BadStorePath | SubstituterFailure | JsonTypeError | OutOfRange

text \<open>The flags of \<open>CmdPathInfo\<close>, and \<open>json\<close> inherited from \<open>MixJSON\<close>.\<close>

record options =
  showSize :: bool
  showClosureSize :: bool
  humanReadable :: bool
  showSigs :: bool
  showSubStatus :: bool
  json :: bool

text \<open>
  A \<open>StorePath\<close> is identified by its base name. \<open>StorePaths\<close> is a vector (a list,
  duplicates possible), \<open>StorePathSet\<close> a \<open>std::set\<close> (a set).
\<close>

type_synonym StorePath = string

text \<open>
  Modelled from the spec: the type \<open>ContentAddress\<close> is declared outside this file; the
  spec calls it an opaque renderable value, so the model keeps its rendering only, and
  \<open>renderContentAddress\<close> returns it.
\<close>

datatype ContentAddress = ContentAddress string

fun renderContentAddress :: "ContentAddress \<Rightarrow> string" where
  "renderContentAddress (ContentAddress s) = s"

text \<open>
  The fields of \<open>ValidPathInfo\<close> that \<open>run\<close> reads. \<open>sigs\<close> is a \<open>StringSet\<close>; the
  list is its iteration sequence.
\<close>

record ValidPathInfo =
  path :: StorePath
  narSize :: "64 word"
  ultimate :: bool
  ca :: "ContentAddress option"
  sigs :: "string list"

text \<open>
  The JSON values of the library. An object is a \<open>std::map\<close> from strings to values:
  it is kept as an association list with one entry per key, in the order of the keys.
\<close>

datatype json =
    JNull
  | JBool bool
  | JNum int
  | JStr string
  | JArr "json list"
  | JObj "(string \<times> json) list"

datatype Base = Base64 | Base32 | Base16 | SRI

datatype AllowInvalidFlag = DisallowInvalid | AllowInvalid

text \<open>
  The methods of \<open>Store\<close> that \<open>run\<close> calls. They are defined outside this file and
  are parameters of the model. \<open>pathInfoToJSON\<close> returns the elements of the JSON array.
\<close>

record Store =
  printStorePath :: "StorePath \<Rightarrow> string"
  parseStorePath :: "string \<Rightarrow> error + StorePath"
  queryPathInfo :: "StorePath \<Rightarrow> error + ValidPathInfo"
  getClosureSize :: "StorePath \<Rightarrow> error + 64 word \<times> 64 word"
  querySubstitutablePaths :: "StorePath set \<Rightarrow> error + StorePath set"
  pathInfoToJSON ::
    "StorePath set \<Rightarrow> bool \<Rightarrow> bool \<Rightarrow> Base \<Rightarrow> AllowInvalidFlag \<Rightarrow> error + json list"

subsection \<open>Formatting\<close>

definition digit_char :: "nat \<Rightarrow> char" where
  "digit_char d = char_of (48 + d)"

fun decimal :: "nat \<Rightarrow> string" where
  "decimal n = (if n < 10 then [digit_char n] else decimal (n div 10) @ [digit_char (n mod 10)])"

declare decimal.simps [simp del]

definition pad_left :: "nat \<Rightarrow> string \<Rightarrow> string" where
  "pad_left w s = replicate (w - length s) CHR '' '' @ s"

text \<open>
  Modelled from the spec: \<open>fmt\<close> is defined outside this file. The spec gives the two
  conversions \<open>printSize\<close> uses: \<open>%11d\<close> is the decimal numeral padded on the left with
  spaces to width 11, and \<open>%6.1f\<close> is the value with exactly one fractional digit, padded
  on the left to width 6. The fractional digit is the nearest one, a tie going to the even
  digit, as the C library prints a binary floating-point value.
\<close>

definition fmt_11d :: "nat \<Rightarrow> string" where
  "fmt_11d n = pad_left 11 (decimal n)"

definition round_half_even :: "rat \<Rightarrow> int" where
  "round_half_even x =
     (let f = \<lfloor>x\<rfloor>; d = x - of_int f
      in if d < 1 / 2 then f else if 1 / 2 < d then f + 1 else if even f then f else f + 1)"

definition fmt_6_1f :: "rat \<Rightarrow> string" where
  "fmt_6_1f x =
     (let t = nat (round_half_even (x * 10))
      in pad_left 6 (decimal (t div 10) @ [CHR ''.'', digit_char (t mod 10)]))"

text \<open>
  \<open>double res = value\<close>: a \<open>double\<close> is modelled by the rational number it denotes. The
  conversion keeps the 53 leading bits of the integer and rounds the rest to nearest,
  a tie going to the even significand; \<open>sig_shift n\<close> is the number of bits dropped.
\<close>

fun sig_shift :: "nat \<Rightarrow> nat" where
  "sig_shift n = (if n < 2 ^ 53 then 0 else Suc (sig_shift (n div 2)))"

declare sig_shift.simps [simp del]

definition double_of_u64 :: "64 word \<Rightarrow> rat" where
  "double_of_u64 val =
     (let n = unat val; e = sig_shift n; q = n div 2 ^ e; r = n mod 2 ^ e;
          q' = (if 2 * r < 2 ^ e then q
                else if 2 ^ e < 2 * r then q + 1
                else if even q then q else q + 1)
      in of_nat (q' * 2 ^ e))"

definition idents :: "char list" where
  "idents = [CHR '' '', CHR ''K'', CHR ''M'', CHR ''G'', CHR ''T'', CHR ''P'', CHR ''E'',
             CHR ''Z'', CHR ''Y'']"

text \<open>\<open>idents.at(i)\<close>: the access is checked and throws out of range.\<close>

definition idents_at :: "nat \<Rightarrow> error + char" where
  "idents_at i = (if i < length idents then Inr (idents ! i) else Inl OutOfRange)"

text \<open>
  The loop \<open>while (res > 1024 && power < idents.size()) { ++power; res /= 1024; }\<close>.
  Dividing a \<open>double\<close> above 1024 by 1024 lowers its exponent and is exact, so the
  division is the division of rationals.
\<close>

function scale :: "nat \<Rightarrow> rat \<Rightarrow> nat \<times> rat" where
  "scale pwr res =
     (if 1024 < res \<and> pwr < length idents then scale (Suc pwr) (res / 1024) else (pwr, res))"
  by pat_completeness auto
termination
  by (relation "measure (\<lambda>(pwr, res). length idents - pwr)") auto

declare scale.simps [simp del]

text \<open>
  \<open>printSize\<close> returns the text it writes to standard output, or the exception of
  \<open>idents.at\<close>, which is raised while the arguments of \<open>fmt\<close> are evaluated, before
  anything is written.
\<close>

definition printSize :: "options \<Rightarrow> 64 word \<Rightarrow> error + string" where
  "printSize opts val =
     (if \<not> humanReadable opts then Inr (CHR 0x09 # fmt_11d (unat val))
      else (case scale 0 (double_of_u64 val) of
              (pwr, res) \<Rightarrow>
                (case idents_at pwr of
                   Inl e \<Rightarrow> Inl e
                 | Inr c \<Rightarrow> Inr (CHR 0x09 # fmt_6_1f res @ [c]))))"

text \<open>
  Modelled from the spec: \<open>concatStringsSep\<close> is defined outside this file; the spec has
  the signature column space-joined.
\<close>

fun concatStringsSep :: "string \<Rightarrow> string list \<Rightarrow> string" where
  "concatStringsSep sep [] = []"
| "concatStringsSep sep [s] = s"
| "concatStringsSep sep (s # t # ss) = s @ sep @ concatStringsSep sep (t # ss)"

subsection \<open>Reading the decimal column back\<close>

text \<open>
  The reader of the round-trip property: a non-empty string of decimal digits denotes
  a number, any other string is rejected.
\<close>

definition digit_val :: "char \<Rightarrow> nat option" where
  "digit_val c = (let k = (of_char c :: nat) in if 48 \<le> k \<and> k \<le> 57 then Some (k - 48) else None)"

fun parse_digits :: "nat \<Rightarrow> string \<Rightarrow> nat option" where
  "parse_digits acc [] = Some acc"
| "parse_digits acc (c # cs) =
     (case digit_val c of None \<Rightarrow> None | Some d \<Rightarrow> parse_digits (10 * acc + d) cs)"

definition parse_decimal :: "string \<Rightarrow> nat option" where
  "parse_decimal s = (if s = [] then None else parse_digits 0 s)"

subsection \<open>The command\<close>

text \<open>The block under \<open>if (showSigs)\<close>: a tab, then the space-joined tokens.\<close>

definition print_sigs :: "ValidPathInfo \<Rightarrow> string" where
  "print_sigs info =
     CHR 0x09 # concatStringsSep '' ''
       ((if ultimate info then [''ultimate''] else [])
        @ (case ca info of None \<Rightarrow> [] | Some c \<Rightarrow> [''ca:'' @ renderContentAddress c])
        @ sigs info)"

text \<open>
  One iteration of the loop over \<open>storePaths\<close> in text mode: the text written, and the
  exception if the iteration throws. What was written before the exception stays written.
  The lengths of printed store paths are far below \<open>2^31\<close>, where the casts to \<open>int\<close>
  are exact.
\<close>

definition print_row :: "options \<Rightarrow> Store \<Rightarrow> nat \<Rightarrow> StorePath \<Rightarrow> string \<times> error option" where
  "print_row opts store pathLen storePath =
     (case queryPathInfo store storePath of
        Inl e \<Rightarrow> ([], Some e)
      | Inr info \<Rightarrow>
          (let storePathS = printStorePath store (path info);
               out1 = storePathS
                 @ (if showSize opts \<or> showClosureSize opts \<or> showSigs opts
                    then replicate (nat (max 0 (int pathLen - int (length storePathS)))) CHR '' ''
                    else [])
           in case (if showSize opts then printSize opts (narSize info) else Inr []) of
                Inl e \<Rightarrow> (out1, Some e)
              | Inr out2 \<Rightarrow>
                  (case (if showClosureSize opts
                         then (case getClosureSize store (path info) of
                                 Inl e \<Rightarrow> Inl e
                               | Inr sz \<Rightarrow> printSize opts (fst sz))
                         else Inr []) of
                     Inl e \<Rightarrow> (out1 @ out2, Some e)
                   | Inr out3 \<Rightarrow>
                       (out1 @ out2 @ out3
                          @ (if showSigs opts then print_sigs info else [])
                          @ [CHR 0x0A],
                        None))))"

text \<open>
  The loop: the list of what each iteration wrote, in order, and the exception that
  ended the loop, if any. The loop stops at the first iteration that throws.
\<close>

fun print_paths :: "options \<Rightarrow> Store \<Rightarrow> nat \<Rightarrow> StorePath list \<Rightarrow> string list \<times> error option" where
  "print_paths opts store pathLen [] = ([], None)"
| "print_paths opts store pathLen (storePath # rest) =
     (case print_row opts store pathLen storePath of
        (row, Some e) \<Rightarrow> ([row], Some e)
      | (row, None) \<Rightarrow>
          (case print_paths opts store pathLen rest of (rows, r) \<Rightarrow> (row # rows, r)))"

text \<open>
  The loop that fills \<open>missingPaths\<close>: each path that is not in \<open>substitutablePaths\<close> is
  appended.
\<close>

definition missingPaths :: "StorePath set \<Rightarrow> StorePath list \<Rightarrow> StorePath list" where
  "missingPaths substitutablePaths storePaths =
     foldl (\<lambda>missing p. if p \<notin> substitutablePaths then missing @ [p] else missing) [] storePaths"

text \<open>The order of the keys of an object: strings compared byte by byte.\<close>

fun key_less :: "string \<Rightarrow> string \<Rightarrow> bool" where
  "key_less [] [] = False"
| "key_less [] (y # ys) = True"
| "key_less (x # xs) [] = False"
| "key_less (x # xs) (y # ys) =
     ((of_char x :: nat) < of_char y \<or> (x = y \<and> key_less xs ys))"

text \<open>
  \<open>v["substitutable"] = b\<close> on the members of an object: the value under an existing
  key is replaced, a new key is inserted at its place in the order of the keys.
\<close>

fun obj_set :: "string \<Rightarrow> json \<Rightarrow> (string \<times> json) list \<Rightarrow> (string \<times> json) list" where
  "obj_set k v [] = [(k, v)]"
| "obj_set k v ((k', v') # kvs) =
     (if k' = k then (k, v) # kvs
      else if key_less k k' then (k, v) # (k', v') # kvs
      else (k', v') # obj_set k v kvs)"

text \<open>
  \<open>std::string const storePathS = v["path"]\<close> followed by \<open>parseStorePath\<close>: the
  conversion throws unless \<open>v\<close> is an object with a string under \<open>"path"\<close>.
\<close>

definition record_path :: "Store \<Rightarrow> json \<Rightarrow> error + StorePath" where
  "record_path store v =
     (case v of
        JObj kvs \<Rightarrow>
          (case map_of kvs ''path'' of
             Some (JStr storePathS) \<Rightarrow> parseStorePath store storePathS
           | _ \<Rightarrow> Inl JsonTypeError)
      | _ \<Rightarrow> Inl JsonTypeError)"

definition add_substitutable :: "Store \<Rightarrow> StorePath set \<Rightarrow> json \<Rightarrow> error + json" where
  "add_substitutable store substitutablePaths v =
     (case record_path store v of
        Inl e \<Rightarrow> Inl e
      | Inr p \<Rightarrow>
          (case v of
             JObj kvs \<Rightarrow> Inr (JObj (obj_set ''substitutable'' (JBool (p \<in> substitutablePaths)) kvs))
           | _ \<Rightarrow> Inl JsonTypeError))"

fun annotate :: "Store \<Rightarrow> StorePath set \<Rightarrow> json list \<Rightarrow> error + json list" where
  "annotate store substitutablePaths [] = Inr []"
| "annotate store substitutablePaths (v # vs) =
     (case add_substitutable store substitutablePaths v of
        Inl e \<Rightarrow> Inl e
      | Inr v' \<Rightarrow>
          (case annotate store substitutablePaths vs of
             Inl e \<Rightarrow> Inl e
           | Inr vs' \<Rightarrow> Inr (v' # vs')))"

text \<open>The JSON branch up to \<open>json.dump()\<close>: the records of the document.\<close>

definition json_records :: "options \<Rightarrow> Store \<Rightarrow> StorePath set \<Rightarrow> StorePath list \<Rightarrow> error + json list" where
  "json_records opts store substitutablePaths storePaths =
     (case pathInfoToJSON store (set storePaths) True (showClosureSize opts) SRI AllowInvalid of
        Inl e \<Rightarrow> Inl e
      | Inr js \<Rightarrow> if showSubStatus opts then annotate store substitutablePaths js else Inr js)"

text \<open>The first loop of \<open>run\<close>: the longest printed path of the request.\<close>

definition pathLen :: "Store \<Rightarrow> StorePath list \<Rightarrow> nat" where
  "pathLen store storePaths =
     foldl (\<lambda>pathLen storePath. max pathLen (length (printStorePath store storePath))) 0 storePaths"

text \<open>
  \<open>substitutablePaths\<close>: empty unless \<open>showSubStatus\<close> is set, when it is the answer of
  the store to one query with the set of all requested paths.
\<close>

definition substitutablePaths :: "options \<Rightarrow> Store \<Rightarrow> StorePath list \<Rightarrow> error + StorePath set" where
  "substitutablePaths opts store storePaths =
     (if showSubStatus opts then querySubstitutablePaths store (set storePaths) else Inr {})"

text \<open>
  The value of \<open>storePaths\<close> when the text loop starts: with \<open>showSubStatus\<close> it has
  been replaced by \<open>missingPaths\<close>.
\<close>

definition textPaths :: "options \<Rightarrow> StorePath set \<Rightarrow> StorePath list \<Rightarrow> StorePath list" where
  "textPaths opts substitutable storePaths =
     (if showSubStatus opts then missingPaths substitutable storePaths else storePaths)"

text \<open>
  \<open>CmdPathInfo::run\<close>. The result is what standard output holds when the call ends, and
  the exception if it ended by one. \<open>dump\<close> is the serialiser of the JSON library, a
  parameter of the model.
\<close>

definition run ::
  "(json \<Rightarrow> error + string) \<Rightarrow> options \<Rightarrow> Store \<Rightarrow> StorePath list \<Rightarrow> string \<times> error option" where
  "run dump opts store storePaths =
     (case substitutablePaths opts store storePaths of
        Inl e \<Rightarrow> ([], Some e)
      | Inr substitutable \<Rightarrow>
          if json opts then
            (case json_records opts store substitutable storePaths of
               Inl e \<Rightarrow> ([], Some e)
             | Inr js \<Rightarrow>
                 (case dump (JArr js) of
                    Inl e \<Rightarrow> ([], Some e)
                  | Inr s \<Rightarrow> (s, None)))
          else
            (case print_paths opts store (pathLen store storePaths)
                    (textPaths opts substitutable storePaths) of
               (rows, r) \<Rightarrow> (concat rows, r)))"

subsection \<open>Predicates used in the properties\<close>

text \<open>The \<open>"substitutable"\<close> member of a record, if it has one.\<close>

definition substitutable_flag :: "json \<Rightarrow> json option" where
  "substitutable_flag v = (case v of JObj kvs \<Rightarrow> map_of kvs ''substitutable'' | _ \<Rightarrow> None)"

text \<open>
  Modelled from the spec: \<open>pathInfoToJSON\<close> is defined outside this file. The spec has
  it build one record per path, each containing the printed name of its path. Here \<open>js\<close>
  are the records returned for the set \<open>S\<close> and \<open>ps\<close> the paths that their \<open>"path"\<close>
  members name, in the order of the records: each path of \<open>S\<close> once.
\<close>

definition one_record_per_path :: "Store \<Rightarrow> StorePath set \<Rightarrow> json list \<Rightarrow> StorePath list \<Rightarrow> bool" where
  "one_record_per_path store S js ps \<longleftrightarrow>
     map (record_path store) js = map Inr ps \<and> distinct ps \<and> set ps = S"

subsection \<open>An example store\<close>

text \<open>
  A serialiser without escaping, to instantiate \<open>dump\<close> in the examples.
\<close>

fun compact_dump :: "json \<Rightarrow> string" where
  "compact_dump JNull = ''null''"
| "compact_dump (JBool b) = (if b then ''true'' else ''false'')"
| "compact_dump (JNum n) = (if n < 0 then ''-'' else []) @ decimal (nat \<bar>n\<bar>)"
| "compact_dump (JStr s) = [CHR 0x22] @ s @ [CHR 0x22]"
| "compact_dump (JArr vs) = ''['' @ concatStringsSep '','' (map compact_dump vs) @ '']''"
| "compact_dump (JObj kvs) =
     ''{'' @ concatStringsSep '',''
              (map (\<lambda>(k, v). [CHR 0x22] @ k @ [CHR 0x22] @ '':'' @ compact_dump v) kvs) @ ''}''"

definition example_dump :: "json \<Rightarrow> error + string" where
  "example_dump v = Inr (compact_dump v)"

text \<open>
  A store with the two valid paths \<open>a-hello\<close> and \<open>b\<close>, where \<open>a-hello\<close> depends on
  \<open>b\<close>; \<open>substituted\<close> is what the substituters have. Its \<open>pathInfoToJSON\<close> goes through
  the given set in the order of the set and writes one record per path.
\<close>

definition example_info :: "StorePath \<Rightarrow> error + ValidPathInfo" where
  "example_info p =
     (if p = ''a-hello'' then
        Inr \<lparr>path = ''a-hello'', narSize = 100, ultimate = True, ca = None, sigs = [''k:s1'']\<rparr>
      else if p = ''b'' then
        Inr \<lparr>path = ''b'', narSize = 2048, ultimate = False,
             ca = Some (ContentAddress ''text:x''), sigs = []\<rparr>
      else Inl InvalidPath)"

definition example_pathInfoToJSON ::
  "StorePath set \<Rightarrow> bool \<Rightarrow> bool \<Rightarrow> Base \<Rightarrow> AllowInvalidFlag \<Rightarrow> error + json list" where
  "example_pathInfoToJSON S includeImpureInfo withClosureSize hashBase allowInvalid =
     Inr (map (\<lambda>p. JObj (case example_info p of
                           Inl e \<Rightarrow> [(''path'', JStr (''/nix/store/'' @ p)),
                                     (''valid'', JBool False)]
                         | Inr info \<Rightarrow> [(''narSize'', JNum (uint (narSize info))),
                                        (''path'', JStr (''/nix/store/'' @ p)),
                                        (''valid'', JBool True)]))
            (filter (\<lambda>p. p \<in> S) [''a-hello'', ''b'', ''c'']))"

definition example_store :: "StorePath set \<Rightarrow> Store" where
  "example_store substituted =
     \<lparr>printStorePath = (\<lambda>p. ''/nix/store/'' @ p),
      parseStorePath =
        (\<lambda>s. if take 11 s = ''/nix/store/'' then Inr (drop 11 s) else Inl BadStorePath),
      queryPathInfo = example_info,
      getClosureSize = (\<lambda>p. if p = ''a-hello'' then Inr (2148, 0)
                             else if p = ''b'' then Inr (2048, 0) else Inl InvalidPath),
      querySubstitutablePaths = (\<lambda>S. Inr (S \<inter> substituted)),
      pathInfoToJSON = example_pathInfoToJSON\<rparr>"

text \<open>
  The same store with substituters that answer every query with the set \<open>answer\<close>,
  whatever paths they are asked about.
\<close>

definition example_store_answering :: "StorePath set \<Rightarrow> Store" where
  "example_store_answering answer =
     (example_store {})\<lparr>querySubstitutablePaths := (\<lambda>S. Inr answer)\<rparr>"

definition example_opts :: options where
  "example_opts = \<lparr>showSize = True, showClosureSize = False, humanReadable = False,
                    showSigs = False, showSubStatus = True, json = False\<rparr>"

section \<open>The size formatter\<close>

lemma digit_val_digit_char: "d < 10 \<Longrightarrow> digit_val (digit_char d) = Some d"
  by (simp add: digit_val_def digit_char_def)

lemma decimal_not_empty: "decimal n \<noteq> []"
  by (subst decimal.simps) simp

lemma parse_digits_snoc:
  "parse_digits acc (cs @ [c]) =
     (case parse_digits acc cs of
        None \<Rightarrow> None
      | Some a \<Rightarrow> (case digit_val c of None \<Rightarrow> None | Some d \<Rightarrow> Some (10 * a + d)))"
  by (induction cs arbitrary: acc) (simp_all split: option.splits)

lemma parse_digits_decimal: "parse_digits 0 (decimal n) = Some n"
proof (induction n rule: decimal.induct)
  case (1 n)
  show ?case
  proof (cases "n < 10")
    case True
    then show ?thesis
      by (subst decimal.simps) (simp add: digit_val_digit_char)
  next
    case False
    with 1 have "parse_digits 0 (decimal (n div 10)) = Some (n div 10)"
      by simp
    with False show ?thesis
      by (subst decimal.simps) (simp add: parse_digits_snoc digit_val_digit_char)
  qed
qed

lemma hd_decimal_not_space: "hd (decimal n) \<noteq> CHR '' ''"
proof -
  obtain c cs where cs: "decimal n = c # cs"
    using decimal_not_empty [of n] by (cases "decimal n") auto
  have "parse_digits 0 (c # cs) = Some n"
    using parse_digits_decimal [of n] cs by simp
  then have "digit_val c \<noteq> None"
    by (auto split: option.splits)
  then have "c \<noteq> CHR '' ''"
    by (auto simp: digit_val_def)
  with cs show ?thesis by simp
qed

lemma dropWhile_pad_left_decimal:
  "dropWhile (\<lambda>c. c = CHR '' '') (pad_left w (decimal n)) = decimal n"
proof -
  have "dropWhile (\<lambda>c. c = CHR '' '') (decimal n) = decimal n"
    using decimal_not_empty [of n] hd_decimal_not_space [of n]
    by (cases "decimal n") auto
  then show ?thesis
    by (simp add: pad_left_def dropWhile_append)
qed

lemma length_pad_left: "w \<le> length (pad_left w s)"
  by (simp add: pad_left_def)

text \<open>
  C7. With \<open>humanReadable\<close> off, \<open>printSize\<close> writes a tab and a field of at least 11
  characters that holds the decimal numeral of the value and nothing after it: dropping
  the padding and reading the field back as a decimal number gives the value.
\<close>

theorem printSize_fixed_roundtrip:
  "\<exists>field. printSize (opts\<lparr>humanReadable := False\<rparr>) x = Inr (CHR 0x09 # field)
     \<and> 11 \<le> length field
     \<and> parse_decimal (dropWhile (\<lambda>c. c = CHR '' '') field) = Some (unat x)"
proof -
  let ?field = "fmt_11d (unat x)"
  have "printSize (opts\<lparr>humanReadable := False\<rparr>) x = Inr (CHR 0x09 # ?field)"
    by (simp add: printSize_def)
  moreover have "11 \<le> length ?field"
    by (simp add: fmt_11d_def length_pad_left)
  moreover have "parse_decimal (dropWhile (\<lambda>c. c = CHR '' '') ?field) = Some (unat x)"
    by (simp add: fmt_11d_def dropWhile_pad_left_decimal parse_decimal_def decimal_not_empty
        parse_digits_decimal)
  ultimately show ?thesis by blast
qed

lemma sig_shift_div: "n div 2 ^ sig_shift n < 2 ^ 53"
proof (induction n rule: sig_shift.induct)
  case (1 n)
  show ?case
  proof (cases "n < 2 ^ 53")
    case True
    then show ?thesis by (subst sig_shift.simps) simp
  next
    case False
    with 1 have "n div 2 div 2 ^ sig_shift (n div 2) < 2 ^ 53" by simp
    with False show ?thesis
      by (subst sig_shift.simps) (simp add: div_mult2_eq)
  qed
qed

lemma sig_shift_le: "n < 2 ^ 53 * 2 ^ k \<Longrightarrow> sig_shift n \<le> k"
proof (induction k arbitrary: n)
  case 0
  then show ?case by (subst sig_shift.simps) simp
next
  case (Suc k)
  show ?case
  proof (cases "n < 2 ^ 53")
    case True
    then show ?thesis by (subst sig_shift.simps) simp
  next
    case False
    from Suc.prems have "n < 2 ^ 53 * 2 ^ k * 2" by (simp add: mult.commute mult.left_commute)
    then have "n div 2 < 2 ^ 53 * 2 ^ k" by (rule less_mult_imp_div_less)
    then have "sig_shift (n div 2) \<le> k" by (rule Suc.IH)
    with False show ?thesis by (subst sig_shift.simps) simp
  qed
qed

lemma double_of_u64_le: "double_of_u64 x \<le> 2 ^ 64"
proof -
  define n where "n = unat x"
  define e where "e = sig_shift n"
  define q where "q = n div 2 ^ e"
  have "n < 2 ^ 64" using unsigned_less [of x] by (simp add: n_def)
  then have "n < 2 ^ 53 * 2 ^ 11" by simp
  then have e: "e \<le> 11" unfolding e_def by (rule sig_shift_le)
  have q: "q < 2 ^ 53" unfolding q_def e_def by (rule sig_shift_div)
  have "\<exists>q'. q' \<le> q + 1 \<and> double_of_u64 x = of_nat q' * 2 ^ e"
    by (auto simp: double_of_u64_def Let_def n_def [symmetric] e_def [symmetric] q_def [symmetric])
  then obtain q' where q': "q' \<le> q + 1" and d: "double_of_u64 x = of_nat q' * 2 ^ e" by blast
  from q' q have "q' \<le> 2 ^ 53" by simp
  then have "(of_nat q' :: rat) \<le> of_nat (2 ^ 53)" by (simp only: of_nat_le_iff)
  then have a: "(of_nat q' :: rat) \<le> 2 ^ 53" by simp
  have b: "(2::rat) ^ e \<le> 2 ^ 11" using e by (intro power_increasing) simp_all
  have "of_nat q' * (2::rat) ^ e \<le> 2 ^ 53 * 2 ^ 11"
    using a b by (rule mult_mono) simp_all
  also have "(2::rat) ^ 53 * 2 ^ 11 = 2 ^ 64" by simp
  finally show ?thesis using d by simp
qed

lemma scale_pwr_le:
  "res \<le> 1024 * 1024 ^ (6 - pwr) \<Longrightarrow> pwr \<le> 6 \<Longrightarrow> fst (scale pwr res) \<le> 6"
proof (induction pwr res rule: scale.induct)
  case (1 pwr res)
  show ?case
  proof (cases "1024 < res \<and> pwr < length idents")
    case True
    with "1.prems" have "pwr \<noteq> 6" by auto
    with "1.prems" have lt: "pwr < 6" by simp
    then have "6 - pwr = Suc (6 - Suc pwr)" by simp
    with "1.prems" have "res \<le> 1024 * (1024 * 1024 ^ (6 - Suc pwr))" by simp
    then have "res / 1024 \<le> 1024 * 1024 ^ (6 - Suc pwr)" by simp
    with True lt "1.IH" have "fst (scale (Suc pwr) (res / 1024)) \<le> 6" by simp
    with True show ?thesis by (subst scale.simps) simp
  next
    case False
    with "1.prems" show ?thesis by (subst scale.simps) auto
  qed
qed

lemma scale_u64_le: "fst (scale 0 (double_of_u64 x)) \<le> 6"
proof -
  have "double_of_u64 x \<le> 2 ^ 64" by (rule double_of_u64_le)
  also have "(2::rat) ^ 64 \<le> 1024 * 1024 ^ (6 - 0)" by simp
  finally show ?thesis by (rule scale_pwr_le) simp
qed

text \<open>
  C9. For every 64-bit value the scaling loop ends with a unit index of at most 6 (the
  letter E), so the checked access to the nine unit letters does not throw and the
  human-readable \<open>printSize\<close> returns its text.
\<close>

theorem printSize_human_in_bounds:
  "fst (scale 0 (double_of_u64 x)) \<le> 6
   \<and> idents_at (fst (scale 0 (double_of_u64 x))) \<noteq> Inl OutOfRange
   \<and> (\<exists>s. printSize (opts\<lparr>humanReadable := True\<rparr>) x = Inr s)"
proof -
  obtain pwr res where s: "scale 0 (double_of_u64 x) = (pwr, res)" by (cases "scale 0 (double_of_u64 x)")
  with scale_u64_le [of x] have "pwr \<le> 6" by simp
  then have "idents_at pwr = Inr (idents ! pwr)" by (simp add: idents_at_def idents_def)
  with s \<open>pwr \<le> 6\<close> show ?thesis by (simp add: printSize_def)
qed

lemma digit_chars:
  "digit_char 0 = CHR ''0''" "digit_char 1 = CHR ''1''" "digit_char 2 = CHR ''2''"
  "digit_char 3 = CHR ''3''" "digit_char 4 = CHR ''4''" "digit_char 5 = CHR ''5''"
  "digit_char 6 = CHR ''6''" "digit_char 7 = CHR ''7''" "digit_char 8 = CHR ''8''"
  "digit_char 9 = CHR ''9''" "digit_char (Suc 0) = CHR ''1''"
  by (simp_all add: digit_char_def char_of_eq_iff)

lemma sig_shift_small: "n < 2 ^ 53 \<Longrightarrow> sig_shift n = 0"
  by (subst sig_shift.simps) simp

lemma double_of_u64_small: "unat x < 2 ^ 53 \<Longrightarrow> double_of_u64 x = of_nat (unat x)"
  by (simp add: double_of_u64_def sig_shift_small)

lemma double_1024: "double_of_u64 1024 = 1024"
  by (simp add: double_of_u64_small)

lemma double_1025: "double_of_u64 1025 = 1025"
  by (simp add: double_of_u64_small)

lemma scale_1024: "scale 0 1024 = (0, 1024)"
  by (subst scale.simps) simp

lemma scale_1025: "scale 0 1025 = (Suc 0, 1025 / 1024)"
  by (subst scale.simps, simp add: idents_def, subst scale.simps, simp)

lemma floor_rat_numeral_quotient: "\<lfloor>numeral a / numeral b :: rat\<rfloor> = numeral a div numeral b"
  by (metis floor_divide_of_int_eq of_int_numeral)

lemma replicate_numeral_unfold: "replicate (numeral k) x = x # replicate (pred_numeral k) x"
  by (simp add: numeral_eq_Suc)

lemma round_10240: "round_half_even (1024 * 10) = 10240"
  by (simp add: round_half_even_def)

lemma round_1025: "round_half_even (1025 / 1024 * 10) = 10"
  by (simp add: round_half_even_def Let_def floor_rat_numeral_quotient)

lemma decimal_1024: "decimal 1024 = ''1024''"
  by (simp add: decimal.simps digit_chars)

lemma decimal_1: "decimal (Suc 0) = ''1''"
  by (simp add: decimal.simps digit_chars)


lemma fmt_1024: "fmt_6_1f 1024 = ''1024.0''"
  using round_10240 by (simp add: fmt_6_1f_def pad_left_def decimal_1024 digit_chars)

lemma fmt_1025: "fmt_6_1f (1025 / 1024) = ''   1.0''"
  using round_1025 by (simp add: fmt_6_1f_def pad_left_def decimal_1 digit_chars replicate_numeral_unfold)

lemma idents_at_0: "idents_at 0 = Inr CHR '' ''"
  by (simp add: idents_at_def idents_def)

lemma idents_at_1: "idents_at (Suc 0) = Inr CHR ''K''"
  by (simp add: idents_at_def idents_def)

lemma scale_at_most_1024:
  assumes "unat x \<le> 1024"
  shows "scale 0 (double_of_u64 x) = (0, of_nat (unat x))"
proof -
  from assms have "unat x < 2 ^ 53" by simp
  then have d: "double_of_u64 x = of_nat (unat x)"
    by (rule double_of_u64_small)
  from assms have "(of_nat (unat x) :: rat) \<le> of_nat 1024"
    by (simp only: of_nat_le_iff)
  then have "\<not> 1024 < (of_nat (unat x) :: rat)" by simp
  then show ?thesis
    unfolding d by (subst scale.simps) simp
qed

lemma scale_above_1024:
  assumes "1024 < unat x" and "unat x \<le> 1024 * 1024"
  shows "scale 0 (double_of_u64 x) = (1, of_nat (unat x) / 1024)"
proof -
  from assms have "unat x < 2 ^ 53" by simp
  then have d: "double_of_u64 x = of_nat (unat x)"
    by (rule double_of_u64_small)
  from assms(1) have "(of_nat 1024 :: rat) < of_nat (unat x)"
    by (simp only: of_nat_less_iff)
  then have gt: "1024 < (of_nat (unat x) :: rat)" by simp
  from assms(2) have "(of_nat (unat x) :: rat) \<le> of_nat (1024 * 1024)"
    by (simp only: of_nat_le_iff)
  then have "(of_nat (unat x) :: rat) / 1024 \<le> 1024" by simp
  then have le: "\<not> 1024 < (of_nat (unat x) :: rat) / 1024" by simp
  have "scale 0 (of_nat (unat x)) = scale (Suc 0) (of_nat (unat x) / 1024)"
    using gt by (subst scale.simps) (simp add: idents_def)
  also have "\<dots> = (Suc 0, of_nat (unat x) / 1024)"
    using le by (subst scale.simps) simp
  finally show ?thesis
    unfolding d by simp
qed

text \<open>
  C2 (as amended). Human-readable \<open>printSize\<close> applies no scale step to 1024, nor to any
  smaller value: the loop divides only while the value is greater than 1024, so 1024 is
  written as \<open>1024.0\<close> with the blank unit letter. The values that get exactly one scale
  step are those from 1025 to \<open>1024 * 1024\<close>; the smallest of them, 1025, is written as
  \<open>1.0K\<close>.
\<close>

theorem printSize_human_1024:
  "(unat x \<le> 1024 \<longrightarrow> scale 0 (double_of_u64 x) = (0, of_nat (unat x)))
   \<and> (1024 < unat x \<and> unat x \<le> 1024 * 1024 \<longrightarrow>
        scale 0 (double_of_u64 x) = (1, of_nat (unat x) / 1024))
   \<and> printSize (opts\<lparr>humanReadable := True\<rparr>) 1024 = Inr (CHR 0x09 # ''1024.0 '')
   \<and> printSize (opts\<lparr>humanReadable := True\<rparr>) 1025 = Inr (CHR 0x09 # ''   1.0K'')"
  by (simp add: scale_at_most_1024 scale_above_1024 printSize_def double_1024 double_1025
      scale_1024 scale_1025 fmt_1024 fmt_1025 idents_at_0 idents_at_1)

theorem printSize_human_1024_witness:
  "unat (1024 :: 64 word) \<le> 1024
   \<and> scale 0 (double_of_u64 1024) = (0, 1024)
   \<and> 1024 < unat (1025 :: 64 word) \<and> unat (1025 :: 64 word) \<le> 1024 * 1024
   \<and> scale 0 (double_of_u64 1025) = (1, 1025 / 1024)"
  using printSize_human_1024 [of 1024] printSize_human_1024 [of 1025]
  by simp

text \<open>
  C2 as stated fails: at the input 1024 the loop makes no step, not one, and the text
  written is not the \<open>1.0K\<close> one.
\<close>

theorem printSize_human_1024_one_step_counterexample:
  "fst (scale 0 (double_of_u64 1024)) \<noteq> 1
   \<and> printSize \<lparr>showSize = True, showClosureSize = False, humanReadable = True,
        showSigs = False, showSubStatus = False, json = False\<rparr> 1024
      \<noteq> Inr (CHR 0x09 # ''   1.0K'')"
  by (simp add: printSize_def double_1024 scale_1024 fmt_1024 idents_at_0)

section \<open>The substitutability filter\<close>

lemma foldl_missing:
  "foldl (\<lambda>missing p. if p \<notin> S then missing @ [p] else missing) acc xs
     = acc @ filter (\<lambda>p. p \<notin> S) xs"
  by (induction xs arbitrary: acc) simp_all

lemma missingPaths_filter: "missingPaths S xs = filter (\<lambda>p. p \<notin> S) xs"
  by (simp add: missingPaths_def foldl_missing)

text \<open>
  C5 (as amended). For every request and every answer of the store, the substitutable set
  and the missing sequence have no path in common, the missing sequence is the request,
  in its order, without the substitutable paths, and the missing sequence together with
  the requested paths of the substitutable set covers exactly the request. The
  substitutable set and the missing sequence together cover exactly the request if and
  only if the store has answered with requested paths only: the code does not intersect
  the answer with the request.
\<close>

theorem missingPaths_partition:
  "substitutable \<inter> set (missingPaths substitutable storePaths) = {}
   \<and> missingPaths substitutable storePaths = filter (\<lambda>p. p \<notin> substitutable) storePaths
   \<and> (substitutable \<inter> set storePaths) \<union> set (missingPaths substitutable storePaths)
       = set storePaths
   \<and> (substitutable \<subseteq> set storePaths \<longrightarrow>
        substitutable \<union> set (missingPaths substitutable storePaths) = set storePaths)
   \<and> (substitutable \<union> set (missingPaths substitutable storePaths) = set storePaths \<longrightarrow>
        substitutable \<subseteq> set storePaths)"
  by (auto simp: missingPaths_filter)

theorem missingPaths_partition_witness:
  "{''a-hello''} \<subseteq> set [''b'', ''a-hello'', ''b'']
   \<and> {''a-hello''} \<union> set (missingPaths {''a-hello''} [''b'', ''a-hello'', ''b''])
       = set [''b'', ''a-hello'', ''b'']
   \<and> {''a-hello''} \<inter> set (missingPaths {''a-hello''} [''b'', ''a-hello'', ''b'']) = {}
   \<and> missingPaths {''a-hello''} [''b'', ''a-hello'', ''b''] = [''b'', ''b'']"
proof -
  have s: "{''a-hello''} \<subseteq> set [''b'', ''a-hello'', ''b'']"
    by simp
  have m: "filter (\<lambda>p. p \<notin> {''a-hello''}) [''b'', ''a-hello'', ''b''] = [''b'', ''b'']"
    by simp
  show ?thesis
    unfolding m [symmetric]
    using s missingPaths_partition [of "{''a-hello''}" "[''b'', ''a-hello'', ''b'']"] by blast
qed

text \<open>
  C5 as stated fails: a store that answers \<open>{x}\<close> to the query for the request \<open>[b]\<close>
  gives a substitutable set that, together with the missing sequence \<open>[b]\<close>, is not the
  request set.
\<close>

theorem missingPaths_cover_counterexample:
  "substitutablePaths example_opts (example_store_answering {''x''}) [''b''] = Inr {''x''}
   \<and> missingPaths {''x''} [''b''] = [''b'']
   \<and> {''x''} \<union> set (missingPaths {''x''} [''b'']) \<noteq> set [''b'']"
  by (auto simp: substitutablePaths_def example_opts_def example_store_answering_def
      example_store_def missingPaths_def)

section \<open>Text mode\<close>

lemma foldl_max_Max:
  "foldl (\<lambda>m x. max m (f x)) a xs = Max (set (a # map f xs))"
proof (induction xs arbitrary: a)
  case Nil
  show ?case by simp
next
  case (Cons x xs)
  have "Max (insert (max a (f x)) (f ` set xs)) = Max (insert a (insert (f x) (f ` set xs)))"
    by (cases "xs = []") (simp_all add: max.assoc)
  with Cons show ?case by simp
qed

lemma pathLen_Max:
  "pathLen store storePaths = Max (set (0 # map (\<lambda>p. length (printStorePath store p)) storePaths))"
  unfolding pathLen_def by (rule foldl_max_Max)

lemma run_text:
  "\<not> json opts \<Longrightarrow> substitutablePaths opts store storePaths = Inr substitutable \<Longrightarrow>
   run dump opts store storePaths
     = (case print_paths opts store (pathLen store storePaths)
               (textPaths opts substitutable storePaths) of
          (rows, r) \<Rightarrow> (concat rows, r))"
  by (simp add: run_def)

text \<open>
  C1 (as amended). In text mode with \<open>showSubStatus\<close>, the alignment width is the
  greatest printed length over the paths of the original request, filtered-out paths
  included: it is computed before the filter runs, so no requested path prints longer
  than the width, and the rows of the remaining paths are written with that width.
\<close>

theorem pathLen_of_request:
  assumes "\<not> json opts" and "showSubStatus opts"
    and "querySubstitutablePaths store (set storePaths) = Inr substitutable"
  shows "pathLen store storePaths
           = Max (set (0 # map (\<lambda>p. length (printStorePath store p)) storePaths))
    \<and> (\<forall>p \<in> set storePaths. length (printStorePath store p) \<le> pathLen store storePaths)
    \<and> run dump opts store storePaths
        = (case print_paths opts store (pathLen store storePaths)
                  (filter (\<lambda>p. p \<notin> substitutable) storePaths) of
             (rows, r) \<Rightarrow> (concat rows, r))"
proof -
  have "substitutablePaths opts store storePaths = Inr substitutable"
    using assms(2,3) by (simp add: substitutablePaths_def)
  then have "run dump opts store storePaths
      = (case print_paths opts store (pathLen store storePaths)
               (textPaths opts substitutable storePaths) of
          (rows, r) \<Rightarrow> (concat rows, r))"
    using assms(1) by (rule run_text [rotated])
  moreover have "textPaths opts substitutable storePaths
      = filter (\<lambda>p. p \<notin> substitutable) storePaths"
    using assms(2) by (simp add: textPaths_def missingPaths_filter)
  moreover have "\<forall>p \<in> set storePaths. length (printStorePath store p) \<le> pathLen store storePaths"
    by (simp add: pathLen_Max)
  ultimately show ?thesis
    by (simp add: pathLen_Max)
qed

lemma decimal_100: "decimal 100 = ''100''"
  by (simp add: decimal.simps digit_chars)

lemma decimal_2048: "decimal 2048 = ''2048''"
  by (simp add: decimal.simps digit_chars)

lemmas example_eval =
  run_def substitutablePaths_def textPaths_def pathLen_def missingPaths_def print_row_def
  print_sigs_def example_opts_def example_store_def example_info_def printSize_def fmt_11d_def
  pad_left_def decimal_100 decimal_2048 replicate_numeral_unfold

theorem pathLen_of_request_witness:
  "\<not> json example_opts \<and> showSubStatus example_opts
   \<and> querySubstitutablePaths (example_store {''a-hello''}) (set [''a-hello'', ''b'']) = Inr {''a-hello''}
   \<and> pathLen (example_store {''a-hello''}) [''a-hello'', ''b''] = 18
   \<and> length (printStorePath (example_store {''a-hello''}) ''a-hello'') \<le> 18
   \<and> run example_dump example_opts (example_store {''a-hello''}) [''a-hello'', ''b'']
       = (''/nix/store/b'' @ ''      '' @ [CHR 0x09] @ ''       2048'' @ [CHR 0x0A], None)"
proof -
  have j: "\<not> json example_opts" and s: "showSubStatus example_opts"
    by (simp_all add: example_opts_def)
  have q: "querySubstitutablePaths (example_store {''a-hello''}) (set [''a-hello'', ''b''])
             = Inr {''a-hello''}"
    by (simp add: example_store_def)
  show ?thesis
    using j s q pathLen_of_request [OF j s q, of example_dump]
    by (simp add: example_eval)
qed

text \<open>
  C1 as stated fails: the request \<open>[a-hello, b]\<close> with \<open>a-hello\<close> substitutable leaves
  \<open>[b]\<close> after the filter, whose longest printed path has 12 characters, but the width
  is 18, the printed length of the filtered-out \<open>a-hello\<close>, and the row of \<open>b\<close> is
  padded with six spaces that the request \<open>[b]\<close> alone does not get.
\<close>

theorem pathLen_post_filter_counterexample:
  "textPaths example_opts {''a-hello''} [''a-hello'', ''b''] = [''b'']
   \<and> pathLen (example_store {''a-hello''}) [''b''] = 12
   \<and> pathLen (example_store {''a-hello''}) [''a-hello'', ''b''] = 18
   \<and> run example_dump example_opts (example_store {''a-hello''}) [''a-hello'', ''b'']
       = (''/nix/store/b'' @ ''      '' @ [CHR 0x09] @ ''       2048'' @ [CHR 0x0A], None)
   \<and> run example_dump example_opts (example_store {''a-hello''}) [''b'']
       = (''/nix/store/b'' @ [CHR 0x09] @ ''       2048'' @ [CHR 0x0A], None)"
  by (simp add: example_eval)

lemma print_paths_length:
  "print_paths opts store w xs = (rows, None) \<Longrightarrow> length rows = length xs"
proof (induction xs arbitrary: rows)
  case Nil
  then show ?case by simp
next
  case (Cons x xs)
  then show ?case
    by (auto split: prod.splits option.splits)
qed

lemma print_paths_append:
  "print_paths opts store w xs = (rows, None) \<Longrightarrow>
   print_paths opts store w (xs @ ys)
     = (case print_paths opts store w ys of (rows', r) \<Rightarrow> (rows @ rows', r))"
proof (induction xs arbitrary: rows)
  case Nil
  then show ?case by (simp split: prod.splits)
next
  case (Cons x xs)
  then show ?case
    by (auto split: prod.splits option.splits)
qed

lemma print_paths_query_fails:
  "queryPathInfo store p = Inl e \<Longrightarrow> print_paths opts store w (p # ys) = ([[]], Some e)"
  by (simp add: print_row_def)

text \<open>
  C4 (as amended). In text mode a failing metadata query aborts the invocation at the
  failing path: the rows of the paths before it have been written and stay on standard
  output, one per path, and nothing is written for the failing path or for any path
  after it.
\<close>

theorem text_error_keeps_earlier_rows:
  assumes "\<not> json opts"
    and "substitutablePaths opts store storePaths = Inr substitutable"
    and "textPaths opts substitutable storePaths = before @ p # after"
    and "print_paths opts store (pathLen store storePaths) before = (rows, None)"
    and "queryPathInfo store p = Inl e"
  shows "run dump opts store storePaths = (concat rows, Some e) \<and> length rows = length before"
proof -
  have "print_paths opts store (pathLen store storePaths) (before @ p # after)
          = (rows @ [[]], Some e)"
    using print_paths_append [OF assms(4), of "p # after"] print_paths_query_fails [OF assms(5)]
    by simp
  then have "run dump opts store storePaths = (concat rows, Some e)"
    using assms(1,2,3) by (simp add: run_text)
  moreover have "length rows = length before"
    using assms(4) by (rule print_paths_length)
  ultimately show ?thesis by simp
qed

theorem text_error_keeps_earlier_rows_witness:
  "\<not> json (example_opts\<lparr>showSubStatus := False\<rparr>)
   \<and> substitutablePaths (example_opts\<lparr>showSubStatus := False\<rparr>) (example_store {})
        [''a-hello'', ''zz'', ''b''] = Inr {}
   \<and> textPaths (example_opts\<lparr>showSubStatus := False\<rparr>) {} [''a-hello'', ''zz'', ''b'']
        = [''a-hello''] @ ''zz'' # [''b'']
   \<and> print_paths (example_opts\<lparr>showSubStatus := False\<rparr>) (example_store {})
        (pathLen (example_store {}) [''a-hello'', ''zz'', ''b'']) [''a-hello'']
        = ([''/nix/store/a-hello'' @ [CHR 0x09] @ ''        100'' @ [CHR 0x0A]], None)
   \<and> queryPathInfo (example_store {}) ''zz'' = Inl InvalidPath
   \<and> run example_dump (example_opts\<lparr>showSubStatus := False\<rparr>) (example_store {})
        [''a-hello'', ''zz'', ''b'']
        = (''/nix/store/a-hello'' @ [CHR 0x09] @ ''        100'' @ [CHR 0x0A], Some InvalidPath)"
proof -
  let ?opts = "example_opts\<lparr>showSubStatus := False\<rparr>"
  let ?store = "example_store {}"
  let ?req = "[''a-hello'', ''zz'', ''b'']"
  have j: "\<not> json ?opts"
    by (simp add: example_opts_def)
  have s: "substitutablePaths ?opts ?store ?req = Inr {}"
    by (simp add: substitutablePaths_def example_opts_def)
  have t: "textPaths ?opts {} ?req = [''a-hello''] @ ''zz'' # [''b'']"
    by (simp add: textPaths_def example_opts_def)
  have p: "print_paths ?opts ?store (pathLen ?store ?req) [''a-hello'']
             = ([''/nix/store/a-hello'' @ [CHR 0x09] @ ''        100'' @ [CHR 0x0A]], None)"
    by (simp add: example_eval)
  have q: "queryPathInfo ?store ''zz'' = Inl InvalidPath"
    by (simp add: example_store_def example_info_def)
  show ?thesis
    using j s t p q text_error_keeps_earlier_rows [OF j s t p q, of example_dump]
    by simp
qed

text \<open>
  C4 as stated fails: for the request \<open>[a-hello, zz, b]\<close>, where \<open>zz\<close> is not a valid
  path, the invocation ends with the exception and has written the row of \<open>a-hello\<close>.
\<close>

theorem text_error_no_output_counterexample:
  "queryPathInfo (example_store {}) ''zz'' = Inl InvalidPath
   \<and> run example_dump (example_opts\<lparr>showSubStatus := False\<rparr>) (example_store {})
        [''a-hello'', ''zz'', ''b'']
        = (''/nix/store/a-hello'' @ [CHR 0x09] @ ''        100'' @ [CHR 0x0A], Some InvalidPath)
   \<and> fst (run example_dump (example_opts\<lparr>showSubStatus := False\<rparr>) (example_store {})
        [''a-hello'', ''zz'', ''b'']) \<noteq> []"
  by (simp add: example_eval)

section \<open>The \<open>humanReadable\<close> flag\<close>

lemma print_row_humanReadable:
  "\<not> showSize opts \<Longrightarrow> \<not> showClosureSize opts \<Longrightarrow>
   print_row (opts\<lparr>humanReadable := h\<rparr>) store w p = print_row opts store w p"
  by (simp add: print_row_def cong: sum.case_cong)

lemma print_paths_humanReadable:
  "\<not> showSize opts \<Longrightarrow> \<not> showClosureSize opts \<Longrightarrow>
   print_paths (opts\<lparr>humanReadable := h\<rparr>) store w xs = print_paths opts store w xs"
  by (induction xs) (simp_all add: print_row_humanReadable)

lemma run_humanReadable:
  "\<not> showSize opts \<Longrightarrow> \<not> showClosureSize opts \<Longrightarrow>
   run dump (opts\<lparr>humanReadable := h\<rparr>) store storePaths = run dump opts store storePaths"
  by (simp add: run_def substitutablePaths_def textPaths_def json_records_def
      print_paths_humanReadable cong: sum.case_cong)

text \<open>
  C10. When neither \<open>showSize\<close> nor \<open>showClosureSize\<close> is set, \<open>humanReadable\<close> has no
  effect: the invocation writes the same output and ends the same way with the flag on
  and with the flag off, in text mode and in JSON mode.
\<close>

theorem humanReadable_no_effect:
  assumes "\<not> showSize opts" and "\<not> showClosureSize opts"
  shows "run dump (opts\<lparr>humanReadable := True\<rparr>) store storePaths
           = run dump (opts\<lparr>humanReadable := False\<rparr>) store storePaths"
  using assms by (simp add: run_humanReadable)

theorem humanReadable_no_effect_witness:
  "\<not> showSize (example_opts\<lparr>showSize := False, showSigs := True\<rparr>)
   \<and> \<not> showClosureSize (example_opts\<lparr>showSize := False, showSigs := True\<rparr>)
   \<and> run example_dump (example_opts\<lparr>showSize := False, showSigs := True, humanReadable := True\<rparr>)
        (example_store {}) [''a-hello'', ''b'']
       = run example_dump (example_opts\<lparr>showSize := False, showSigs := True, humanReadable := False\<rparr>)
           (example_store {}) [''a-hello'', ''b'']
   \<and> run example_dump (example_opts\<lparr>showSize := False, showSigs := True, humanReadable := True\<rparr>)
        (example_store {}) [''a-hello'', ''b'']
       = (''/nix/store/a-hello'' @ [CHR 0x09] @ ''ultimate k:s1'' @ [CHR 0x0A]
          @ ''/nix/store/b'' @ ''      '' @ [CHR 0x09] @ ''ca:text:x'' @ [CHR 0x0A], None)"
proof -
  let ?opts = "example_opts\<lparr>showSize := False, showSigs := True\<rparr>"
  have a: "\<not> showSize ?opts" and b: "\<not> showClosureSize ?opts"
    by (simp_all add: example_opts_def)
  show ?thesis
    using a b humanReadable_no_effect [OF a b, of example_dump "example_store {}" "[''a-hello'', ''b'']"]
    by (simp add: example_eval)
qed

section \<open>JSON mode\<close>

lemma map_of_obj_set:
  "map_of (obj_set k v kvs) k' = (if k' = k then Some v else map_of kvs k')"
  by (induction kvs) auto

lemma add_substitutable_record:
  assumes "record_path store v = Inr p"
  shows "\<exists>v'. add_substitutable store S v = Inr v'
           \<and> record_path store v' = Inr p
           \<and> substitutable_flag v' = Some (JBool (p \<in> S))"
proof -
  from assms obtain kvs where v: "v = JObj kvs"
    by (cases v) (simp_all add: record_path_def)
  let ?v' = "JObj (obj_set ''substitutable'' (JBool (p \<in> S)) kvs)"
  from assms v have "add_substitutable store S v = Inr ?v'"
    by (simp add: add_substitutable_def)
  moreover from assms v have "record_path store ?v' = Inr p"
    by (simp add: record_path_def map_of_obj_set)
  moreover have "substitutable_flag ?v' = Some (JBool (p \<in> S))"
    by (simp add: substitutable_flag_def map_of_obj_set)
  ultimately show ?thesis by blast
qed

lemma annotate_records:
  "map (record_path store) js = map Inr ps \<Longrightarrow>
   \<exists>js'. annotate store S js = Inr js'
         \<and> length js' = length ps
         \<and> map (record_path store) js' = map Inr ps
         \<and> map substitutable_flag js' = map (\<lambda>p. Some (JBool (p \<in> S))) ps"
proof (induction js arbitrary: ps)
  case Nil
  then show ?case by simp
next
  case (Cons v js)
  from Cons.prems obtain p ps' where ps: "ps = p # ps'"
    and v: "record_path store v = Inr p"
    and js: "map (record_path store) js = map Inr ps'"
    by (cases ps) auto
  from add_substitutable_record [OF v, of S] obtain v' where
    v': "add_substitutable store S v = Inr v'" "record_path store v' = Inr p"
        "substitutable_flag v' = Some (JBool (p \<in> S))"
    by blast
  from Cons.IH [OF js] obtain js' where
    js': "annotate store S js = Inr js'" "length js' = length ps'"
         "map (record_path store) js' = map Inr ps'"
         "map substitutable_flag js' = map (\<lambda>p. Some (JBool (p \<in> S))) ps'"
    by blast
  have "annotate store S (v # js) = Inr (v' # js')"
    by (simp add: v'(1) js'(1))
  with v' js' ps show ?case by simp
qed

lemma print_row_newline:
  "print_row opts store w p = (row, None) \<Longrightarrow> row \<noteq> [] \<and> last row = CHR 0x0A"
  by (auto simp: print_row_def Let_def split: sum.splits if_splits)

lemma print_paths_newline:
  "print_paths opts store w xs = (rows, None) \<Longrightarrow>
   list_all (\<lambda>row. row \<noteq> [] \<and> last row = CHR 0x0A) rows"
proof (induction xs arbitrary: rows)
  case Nil
  then show ?case by simp
next
  case (Cons x xs)
  then show ?case
    by (auto split: prod.splits option.splits dest: print_row_newline)
qed


text \<open>
  What the code does with \<open>showSubStatus\<close>. A text-mode invocation that completes writes
  exactly one newline-terminated row per missing path. A JSON-mode invocation passes the
  set of the requested paths to \<open>pathInfoToJSON\<close>; when that returns one record per path
  of the set, the document has as many records as the request has distinct paths, and
  each record has a boolean \<open>substitutable\<close> member that is true exactly when the path
  of the record is in the substitutable set.
\<close>

lemma showSubStatus_rows_and_records:
  assumes "showSubStatus opts"
    and "querySubstitutablePaths store (set storePaths) = Inr substitutable"
  shows "(\<not> json opts \<longrightarrow>
          print_paths opts store (pathLen store storePaths)
            (missingPaths substitutable storePaths) = (rows, None) \<longrightarrow>
            run dump opts store storePaths = (concat rows, None)
            \<and> length rows = length (missingPaths substitutable storePaths)
            \<and> list_all (\<lambda>row. row \<noteq> [] \<and> last row = CHR 0x0A) rows)
       \<and> (json opts \<longrightarrow>
          pathInfoToJSON store (set storePaths) True (showClosureSize opts) SRI AllowInvalid
            = Inr js \<longrightarrow>
          one_record_per_path store (set storePaths) js ps \<longrightarrow>
            (\<exists>js'. json_records opts store substitutable storePaths = Inr js'
               \<and> run dump opts store storePaths
                   = (case dump (JArr js') of Inl e \<Rightarrow> ([], Some e) | Inr s \<Rightarrow> (s, None))
               \<and> length js' = card (set storePaths)
               \<and> (distinct storePaths \<longrightarrow> length js' = length storePaths)
               \<and> map (record_path store) js' = map Inr ps
               \<and> map substitutable_flag js' = map (\<lambda>p. Some (JBool (p \<in> substitutable))) ps))"
proof -
  have subst: "substitutablePaths opts store storePaths = Inr substitutable"
    using assms by (simp add: substitutablePaths_def)
  show ?thesis
  proof (intro conjI impI)
    assume t: "\<not> json opts"
      and rows: "print_paths opts store (pathLen store storePaths)
                   (missingPaths substitutable storePaths) = (rows, None)"
    from t subst rows assms(1)
    show "run dump opts store storePaths = (concat rows, None)"
      by (simp add: run_text textPaths_def)
  next
    assume rows: "print_paths opts store (pathLen store storePaths)
                   (missingPaths substitutable storePaths) = (rows, None)"
    then show "length rows = length (missingPaths substitutable storePaths)"
      by (rule print_paths_length)
  next
    assume rows: "print_paths opts store (pathLen store storePaths)
                   (missingPaths substitutable storePaths) = (rows, None)"
    then show "list_all (\<lambda>row. row \<noteq> [] \<and> last row = CHR 0x0A) rows"
      by (rule print_paths_newline)
  next
    assume j: "json opts"
      and js: "pathInfoToJSON store (set storePaths) True (showClosureSize opts) SRI AllowInvalid
                 = Inr js"
      and "one_record_per_path store (set storePaths) js ps"
    then have ps: "map (record_path store) js = map Inr ps" "distinct ps" "set ps = set storePaths"
      by (simp_all add: one_record_per_path_def)
    from annotate_records [OF ps(1), of substitutable] obtain js' where
      js': "annotate store substitutable js = Inr js'" "length js' = length ps"
           "map (record_path store) js' = map Inr ps"
           "map substitutable_flag js' = map (\<lambda>p. Some (JBool (p \<in> substitutable))) ps"
      by blast
    have r: "json_records opts store substitutable storePaths = Inr js'"
      using assms(1) js js'(1) by (simp add: json_records_def)
    have "run dump opts store storePaths
            = (case dump (JArr js') of Inl e \<Rightarrow> ([], Some e) | Inr s \<Rightarrow> (s, None))"
      using j subst r by (simp add: run_def)
    moreover have c: "length js' = card (set storePaths)"
      using js'(2) ps(2,3) distinct_card [of ps] by simp
    moreover have "distinct storePaths \<longrightarrow> length js' = length storePaths"
      using c by (simp add: distinct_card)
    ultimately show "\<exists>js'. json_records opts store substitutable storePaths = Inr js'
               \<and> run dump opts store storePaths
                   = (case dump (JArr js') of Inl e \<Rightarrow> ([], Some e) | Inr s \<Rightarrow> (s, None))
               \<and> length js' = card (set storePaths)
               \<and> (distinct storePaths \<longrightarrow> length js' = length storePaths)
               \<and> map (record_path store) js' = map Inr ps
               \<and> map substitutable_flag js' = map (\<lambda>p. Some (JBool (p \<in> substitutable))) ps"
      using r js'(3,4) by blast
  qed
qed

lemma run_json_rev:
  "run dump (opts\<lparr>json := True\<rparr>) store (rev storePaths)
     = run dump (opts\<lparr>json := True\<rparr>) store storePaths"
  by (simp add: run_def substitutablePaths_def json_records_def cong: sum.case_cong)

lemmas example_json_eval =
  json_records_def example_opts_def example_store_def example_pathInfoToJSON_def
  example_info_def add_substitutable_def record_path_def

text \<open>
  C3 at the failing input. The request \<open>[b, a-hello]\<close> in JSON mode: the records come in
  the order of the set, \<open>a-hello\<close> before \<open>b\<close>, not in the order of the request, and the
  output is the same as for the request \<open>[a-hello, b]\<close>.
\<close>

theorem json_records_not_in_request_order:
  "json_records (example_opts\<lparr>showSubStatus := False, json := True\<rparr>) (example_store {}) {}
     [''b'', ''a-hello'']
     = Inr [JObj [(''narSize'', JNum 100), (''path'', JStr ''/nix/store/a-hello''),
                  (''valid'', JBool True)],
            JObj [(''narSize'', JNum 2048), (''path'', JStr ''/nix/store/b''),
                  (''valid'', JBool True)]]
   \<and> run example_dump (example_opts\<lparr>showSubStatus := False, json := True\<rparr>) (example_store {})
        [''b'', ''a-hello'']
       = run example_dump (example_opts\<lparr>showSubStatus := False, json := True\<rparr>) (example_store {})
           [''a-hello'', ''b'']"
proof -
  have "run example_dump (example_opts\<lparr>showSubStatus := False, json := True\<rparr>) (example_store {})
          (rev [''a-hello'', ''b''])
        = run example_dump (example_opts\<lparr>showSubStatus := False, json := True\<rparr>) (example_store {})
            [''a-hello'', ''b'']"
    by (rule run_json_rev)
  then show ?thesis
    by (simp add: example_json_eval)
qed


end
